theory Spec2Isabelle
  imports Complex_Main "HOL-Library.Word" "HOL-Library.Multiset"
begin

section \<open>The discrete-event simulation engine of dcsxx-des\<close>

text \<open>
  A shallow embedding of \<^verbatim>\<open>dcs/des/engine.hpp\<close> (class \<^verbatim>\<open>engine<RealT>\<close>) and of
  \<^verbatim>\<open>dcs/des/replications/constant_num_replications_detector.hpp\<close>.

  Conventions of the embedding:
  \<^item> \<^verbatim>\<open>RealT\<close>, the template parameter of the engine, is the type parameter \<open>'t\<close>: the
    engine only compares (\<open><\<close>, \<open>>\<close>, \<open>\<ge>\<close>), copies and zeroes times. The default
    \<^verbatim>\<open>double\<close> is the type \<open>real or_nan\<close> below, whose comparisons are false on NaN;
    where a property needs the times to be linearly ordered it is stated for such a type;
  \<^item> \<^verbatim>\<open>std::size_t\<close> is \<open>64 word\<close>, so \<^verbatim>\<open>++num_events_\<close> wraps as in C++;
  \<^item> a \<^verbatim>\<open>boost::shared_ptr< event<RealT> >\<close> is an address (\<open>nat\<close>) into a heap of events
    that is part of the state, since \<^verbatim>\<open>reschedule_event\<close> mutates an event that the
    future-event list and the caller share; the null pointer is \<open>None\<close>;
  \<^item> the member functions mutate \<^verbatim>\<open>*this\<close>; here they take the engine and return it;
  \<^item> \<^verbatim>\<open>event::fire(ctx)\<close> runs the sinks connected to the event's source, which are
    client callbacks; it is the parameter \<open>fire\<close> of the functions that dispatch.
\<close>

subsection \<open>Events and event sources\<close>

text \<open>
  An event source is identified by the object itself. The engine owns six of them
  (\<^verbatim>\<open>ptr_bos_evt_src_\<close>, \<^verbatim>\<open>ptr_eos_evt_src_\<close>, \<^verbatim>\<open>ptr_bef_evt_src_\<close>, \<^verbatim>\<open>ptr_aef_evt_src_\<close>,
  \<^verbatim>\<open>ptr_si_evt_src_\<close>, \<^verbatim>\<open>ptr_sf_evt_src_\<close>); every other source belongs to a client.
\<close>

datatype event_source =
    bos_evt_src
  | eos_evt_src
  | bef_evt_src
  | aef_evt_src
  | si_evt_src
  | sf_evt_src
  | usr_evt_src nat

text \<open>
  \<^verbatim>\<open>event(ptr_src, schedule_time, fire_time [, state])\<close>. The only state the engine itself
  ever stores is the event embedded in a BEFORE/AFTER wrapper.
\<close>

datatype 't event =
  Event (source: event_source) (scheduled_time: 't) (fire_time: 't) (embedded: "'t event option")

definition set_fire_time :: "'t \<Rightarrow> 't event \<Rightarrow> 't event" where
  "set_fire_time t ev = Event (source ev) (scheduled_time ev) t (embedded ev)"

subsection \<open>The future-event list\<close>

text \<open>
  Modelled from the spec: the class \<^verbatim>\<open>event_list\<close> (\<^verbatim>\<open>dcs/des/event_list.hpp\<close>), which the
  engine only calls (\<^verbatim>\<open>push\<close>, \<^verbatim>\<open>top\<close>, \<^verbatim>\<open>pop\<close>, \<^verbatim>\<open>erase\<close>, \<^verbatim>\<open>clear\<close>, \<^verbatim>\<open>empty\<close>).
  The spec: a priority queue of events ordered by (fire time ascending, sequence number
  ascending); sequence numbers are assigned monotonically at push time; \<^verbatim>\<open>erase\<close> removes
  exactly one element with the given identity and is no error when it is absent.

  An entry is (sequence number, event pointer). The fire time of an entry is read through
  the pointer (\<open>key\<close>), as the comparison of a queue of shared pointers does.
\<close>

record event_list =
  entries :: "(nat \<times> nat) list"
  next_seq :: nat

definition event_list_empty :: "event_list \<Rightarrow> bool" where
  "event_list_empty fel = (entries fel = [])"

definition event_list_push :: "nat \<Rightarrow> event_list \<Rightarrow> event_list" where
  "event_list_push p fel =
     fel\<lparr>entries := entries fel @ [(next_seq fel, p)], next_seq := Suc (next_seq fel)\<rparr>"

definition event_list_clear :: "event_list \<Rightarrow> event_list" where
  "event_list_clear fel = fel\<lparr>entries := []\<rparr>"

fun erase_first :: "nat \<Rightarrow> (nat \<times> nat) list \<Rightarrow> (nat \<times> nat) list" where
  "erase_first p [] = []"
| "erase_first p (x # xs) = (if snd x = p then xs else x # erase_first p xs)"

definition event_list_erase :: "nat \<Rightarrow> event_list \<Rightarrow> event_list" where
  "event_list_erase p fel = fel\<lparr>entries := erase_first p (entries fel)\<rparr>"

definition entry_before :: "(nat \<Rightarrow> 't::ord) \<Rightarrow> nat \<times> nat \<Rightarrow> nat \<times> nat \<Rightarrow> bool" where
  "entry_before key a b =
     (key (snd a) < key (snd b) \<or> (key (snd a) = key (snd b) \<and> fst a < fst b))"

fun min_entry :: "(nat \<Rightarrow> 't::ord) \<Rightarrow> nat \<times> nat \<Rightarrow> (nat \<times> nat) list \<Rightarrow> nat \<times> nat" where
  "min_entry key a [] = a"
| "min_entry key a (b # bs) = min_entry key (if entry_before key b a then b else a) bs"

text \<open>\<^verbatim>\<open>top\<close> and \<^verbatim>\<open>pop\<close> are only called on a non-empty list.\<close>

definition top_entry :: "(nat \<Rightarrow> 't::ord) \<Rightarrow> event_list \<Rightarrow> nat \<times> nat" where
  "top_entry key fel = min_entry key (hd (entries fel)) (tl (entries fel))"

definition event_list_top :: "(nat \<Rightarrow> 't::ord) \<Rightarrow> event_list \<Rightarrow> nat" where
  "event_list_top key fel = snd (top_entry key fel)"

definition event_list_pop :: "(nat \<Rightarrow> 't::ord) \<Rightarrow> event_list \<Rightarrow> event_list" where
  "event_list_pop key fel = fel\<lparr>entries := remove1 (top_entry key fel) (entries fel)\<rparr>"

subsection \<open>Analyzable statistics\<close>

text \<open>
  Modelled from the spec: the interface \<^verbatim>\<open>base_analyzable_statistic\<close>
  (\<^verbatim>\<open>dcs/des/base_analyzable_statistic.hpp\<close>), of which the engine reads \<^verbatim>\<open>enabled()\<close>,
  \<^verbatim>\<open>steady_state_entered()\<close> and \<^verbatim>\<open>target_precision_reached()\<close> and calls the setter
  \<^verbatim>\<open>steady_state_enter_time(t)\<close>. The engine reads these booleans and never changes the
  numeric state of a statistic.
\<close>

record 't statistic =
  enabled :: bool
  steady_state_entered :: bool
  target_precision_reached :: bool
  steady_state_enter_time :: 't

subsection \<open>The engine\<close>

text \<open>
  The member variables of \<^verbatim>\<open>engine\<close>. \<open>evt_heap\<close> and \<open>next_handle\<close> are the heap of
  events behind the shared pointers (\<^verbatim>\<open>make_shared\<close> takes the next address).
  \<open>src_enabled\<close> and \<open>src_empty\<close> are \<^verbatim>\<open>event_source::enabled()\<close> and
  \<^verbatim>\<open>event_source::empty()\<close> (no sink connected) of every source. \<open>mon_stats\<close> is the
  \<^verbatim>\<open>std::map\<close> from statistic pointers to their steady-state latch, in iteration order,
  and \<open>stat_heap\<close> holds the statistics the pointers refer to.
\<close>

record 't engine =
  evt_list :: event_list
  evt_heap :: "nat \<Rightarrow> 't event"
  next_handle :: nat
  src_enabled :: "event_source \<Rightarrow> bool"
  src_empty :: "event_source \<Rightarrow> bool"
  sim_time :: 't
  last_evt_time :: 't
  end_of_sim :: bool
  num_events :: "64 word"
  num_usr_events :: "64 word"
  mon_stats :: "(nat \<times> bool) list"
  stat_heap :: "nat \<Rightarrow> 't statistic"

text \<open>The default constructor: a source is created enabled and without sinks.\<close>

definition engine_init :: "'t::zero engine" where
  "engine_init =
     \<lparr>evt_list = \<lparr>entries = [], next_seq = 0\<rparr>,
      evt_heap = (\<lambda>p. Event (usr_evt_src 0) 0 0 None),
      next_handle = 0,
      src_enabled = (\<lambda>s. True),
      src_empty = (\<lambda>s. True),
      sim_time = 0,
      last_evt_time = 0,
      end_of_sim = True,
      num_events = 0,
      num_usr_events = 0,
      mon_stats = [],
      stat_heap = (\<lambda>p. \<lparr>enabled = True, steady_state_entered = False,
                          target_precision_reached = False, steady_state_enter_time = 0\<rparr>)\<rparr>"

text \<open>The key of the future-event list: the fire time behind the pointer.\<close>

definition evt_key :: "'t engine \<Rightarrow> nat \<Rightarrow> 't" where
  "evt_key e p = fire_time (evt_heap e p)"

text \<open>
  \<^verbatim>\<open>schedule_event(ptr_src, time)\<close>; the overload with a user state differs only in the
  state it stores in the event.
\<close>

definition schedule_event :: "event_source \<Rightarrow> 't::ord \<Rightarrow> 't engine \<Rightarrow> nat option \<times> 't engine" where
  "schedule_event src time e =
     (if \<not> src_enabled e src then (None, e)
      else
        let time' = (if time < sim_time e then sim_time e else time);
            ptr_evt = next_handle e
        in (Some ptr_evt,
            e\<lparr>evt_heap := (evt_heap e)(ptr_evt := Event src (sim_time e) time' None),
              next_handle := Suc ptr_evt,
              evt_list := event_list_push ptr_evt (evt_list e)\<rparr>))"

text \<open>
  \<^verbatim>\<open>essentially_equal\<close> is \<^verbatim>\<open>dcs::math::float_traits<RealT>::essentially_equal\<close>, of
  another library; it is a parameter.
\<close>

definition reschedule_event ::
  "('t::ord \<Rightarrow> 't \<Rightarrow> bool) \<Rightarrow> nat \<Rightarrow> 't \<Rightarrow> 't engine \<Rightarrow> 't engine" where
  "reschedule_event essentially_equal ptr_evt time e =
     (let ev = evt_heap e ptr_evt in
      if \<not> src_enabled e (source ev) then e
      else if time < sim_time e \<and> \<not> (fire_time ev > sim_time e) then e
      else
        let time' = (if time < sim_time e then sim_time e else time) in
        if essentially_equal time' (fire_time ev) then e
        else e\<lparr>evt_list := event_list_push ptr_evt (event_list_erase ptr_evt (evt_list e)),
               evt_heap := (evt_heap e)(ptr_evt := set_fire_time time' ev)\<rparr>)"

definition is_internal_event :: "'t event \<Rightarrow> bool" where
  "is_internal_event evt =
     (source evt = bos_evt_src \<or> source evt = eos_evt_src
      \<or> source evt = bef_evt_src \<or> source evt = aef_evt_src)"

definition make_internal_event :: "'t engine \<Rightarrow> event_source \<Rightarrow> 't event \<Rightarrow> 't event" where
  "make_internal_event e src embedded_evt = Event src (sim_time e) (sim_time e) (Some embedded_evt)"

text \<open>
  The wrapper dispatch shared by \<^verbatim>\<open>fire_next_event\<close> and \<^verbatim>\<open>fire_immediate_event\<close>:
  \<^verbatim>\<open>if (!src->empty()) { make_internal_event(src, evt).fire(ctx); ++num_events_; }\<close>
\<close>

definition fire_wrapper ::
  "('t event \<Rightarrow> 't engine \<Rightarrow> 't engine) \<Rightarrow> event_source \<Rightarrow> 't event \<Rightarrow> 't engine \<Rightarrow> 't engine" where
  "fire_wrapper fire src evt e =
     (if \<not> src_empty e src
      then (let e' = fire (make_internal_event e src evt) e
            in e'\<lparr>num_events := num_events e' + 1\<rparr>)
      else e)"

text \<open>
  The counting shared by both:
  \<^verbatim>\<open>++num_events_; if (!is_internal_event(evt)) { ++num_usr_events_; }\<close>
\<close>

definition count_event :: "'t event \<Rightarrow> 't engine \<Rightarrow> 't engine" where
  "count_event evt e =
     (let e1 = e\<lparr>num_events := num_events e + 1\<rparr>
      in if \<not> is_internal_event evt then e1\<lparr>num_usr_events := num_usr_events e1 + 1\<rparr> else e1)"

text \<open>
  \<^verbatim>\<open>fire_next_event\<close>. The popped event stays reachable through \<^verbatim>\<open>ptr_cur_evt\<close>, so
  each dispatch passes the event as it is in the heap at that moment; \<^verbatim>\<open>cur_time\<close> is
  the local copy of its fire time taken before the first dispatch, and the source of an
  event never changes.
\<close>

definition fire_next_event :: "('t::ord event \<Rightarrow> 't engine \<Rightarrow> 't engine) \<Rightarrow> 't engine \<Rightarrow> 't engine" where
  "fire_next_event fire e =
     (if event_list_empty (evt_list e) then e
      else
        let ptr_cur_evt = event_list_top (evt_key e) (evt_list e);
            e1 = e\<lparr>evt_list := event_list_pop (evt_key e) (evt_list e)\<rparr>;
            cur_evt = evt_heap e1 ptr_cur_evt
        in if \<not> src_enabled e1 (source cur_evt) then e1
           else
             let e2 = count_event cur_evt e1;
                 cur_time = fire_time cur_evt;
                 e3 = e2\<lparr>sim_time := cur_time\<rparr>;
                 e4 = fire_wrapper fire bef_evt_src (evt_heap e3 ptr_cur_evt) e3;
                 e5 = fire (evt_heap e4 ptr_cur_evt) e4;
                 e6 = fire_wrapper fire aef_evt_src (evt_heap e5 ptr_cur_evt) e5;
                 e7 = e6\<lparr>last_evt_time := cur_time\<rparr>
             in if source cur_evt = eos_evt_src then e7\<lparr>end_of_sim := True\<rparr> else e7)"

definition fire_immediate_event ::
  "('t event \<Rightarrow> 't engine \<Rightarrow> 't engine) \<Rightarrow> event_source \<Rightarrow> 't engine \<Rightarrow> 't engine" where
  "fire_immediate_event fire src e =
     (let cur_evt = Event src (sim_time e) (sim_time e) None
      in if \<not> src_enabled e src then e
         else
           let e2 = count_event cur_evt e;
               e4 = fire_wrapper fire bef_evt_src cur_evt e2;
               e5 = fire cur_evt e4;
               e6 = fire_wrapper fire aef_evt_src cur_evt e5;
               e7 = e6\<lparr>last_evt_time := sim_time e6\<rparr>
           in if source cur_evt = eos_evt_src then e7\<lparr>end_of_sim := True\<rparr> else e7)"

text \<open>
  \<^verbatim>\<open>reset()\<close> assigns \<^verbatim>\<open>sim_time_\<close>, \<^verbatim>\<open>last_evt_time_\<close>, \<^verbatim>\<open>num_events_\<close> and
  \<^verbatim>\<open>end_of_sim_\<close> and clears the event list; it assigns nothing else.
\<close>

definition reset :: "'t::zero engine \<Rightarrow> 't engine" where
  "reset e =
     e\<lparr>sim_time := 0, last_evt_time := 0, num_events := 0, end_of_sim := False,
       evt_list := event_list_clear (evt_list e)\<rparr>"

text \<open>
  \<^verbatim>\<open>reset_statistics()\<close> calls \<^verbatim>\<open>reset()\<close> of every registered statistic; what a statistic
  does then is its own business: the parameter \<open>stat_reset\<close>.
\<close>

definition reset_statistics :: "('t statistic \<Rightarrow> 't statistic) \<Rightarrow> 't engine \<Rightarrow> 't engine" where
  "reset_statistics stat_reset e =
     (if mon_stats e = [] then e
      else e\<lparr>stat_heap :=
               fold (\<lambda>it sh. sh(fst it := stat_reset (sh (fst it)))) (mon_stats e) (stat_heap e)\<rparr>)"

definition prepare_simulation ::
  "('t::zero event \<Rightarrow> 't engine \<Rightarrow> 't engine) \<Rightarrow> ('t statistic \<Rightarrow> 't statistic) \<Rightarrow> 't engine \<Rightarrow> 't engine" where
  "prepare_simulation fire stat_reset e =
     fire_immediate_event fire bos_evt_src (reset_statistics stat_reset (reset e))"

definition finalize_simulation :: "('t event \<Rightarrow> 't engine \<Rightarrow> 't engine) \<Rightarrow> 't engine \<Rightarrow> 't engine" where
  "finalize_simulation fire e =
     (let e1 = (if \<not> end_of_sim e then e\<lparr>end_of_sim := True\<rparr> else e);
          e2 = e1\<lparr>evt_list := event_list_clear (evt_list e1)\<rparr>
      in fire_immediate_event fire eos_evt_src e2)"

definition initialize_simulated_system ::
  "('t event \<Rightarrow> 't engine \<Rightarrow> 't engine) \<Rightarrow> 't engine \<Rightarrow> 't engine" where
  "initialize_simulated_system fire e = fire_immediate_event fire si_evt_src e"

definition finalize_simulated_system ::
  "('t event \<Rightarrow> 't engine \<Rightarrow> 't engine) \<Rightarrow> 't engine \<Rightarrow> 't engine" where
  "finalize_simulated_system fire e = fire_immediate_event fire sf_evt_src e"

text \<open>
  The loop of \<^verbatim>\<open>monitor_statistics()\<close> over \<^verbatim>\<open>mon_stats_\<close>: the entries still to visit,
  the statistics, and the local \<^verbatim>\<open>prec_reached\<close>. It returns the visited entries with
  their latches, the statistics and \<^verbatim>\<open>prec_reached\<close>.
\<close>

fun monitor_loop ::
  "'t \<Rightarrow> (nat \<times> bool) list \<Rightarrow> (nat \<Rightarrow> 't statistic) \<Rightarrow> bool
     \<Rightarrow> (nat \<times> bool) list \<times> (nat \<Rightarrow> 't statistic) \<times> bool" where
  "monitor_loop t [] sh prec_reached = ([], sh, prec_reached)"
| "monitor_loop t (it # rest) sh prec_reached =
     (let enter = (\<not> snd it \<and> steady_state_entered (sh (fst it)));
          latch = (if enter then True else snd it);
          sh1 = (if enter then sh(fst it := (sh (fst it))\<lparr>steady_state_enter_time := t\<rparr>) else sh);
          prec1 = (if enabled (sh1 (fst it)) \<and> \<not> target_precision_reached (sh1 (fst it))
                   then False else prec_reached);
          r = monitor_loop t rest sh1 prec1
      in ((fst it, latch) # fst r, fst (snd r), snd (snd r)))"

definition monitor_statistics :: "'t engine \<Rightarrow> 't engine" where
  "monitor_statistics e =
     (if mon_stats e = [] then e
      else
        let r = monitor_loop (sim_time e) (mon_stats e) (stat_heap e) True;
            e1 = e\<lparr>mon_stats := fst r, stat_heap := fst (snd r)\<rparr>
        in if snd (snd r) then e1\<lparr>end_of_sim := True\<rparr> else e1)"

definition advance :: "('t::ord event \<Rightarrow> 't engine \<Rightarrow> 't engine) \<Rightarrow> 't engine \<Rightarrow> 't engine" where
  "advance fire e =
     (if \<not> end_of_sim e \<and> \<not> event_list_empty (evt_list e)
      then monitor_statistics (fire_next_event fire e)
      else e)"

text \<open>
  \<^verbatim>\<open>stop_at_time\<close> throws \<^verbatim>\<open>std::logic_error\<close> for a time in the past and otherwise
  schedules the END-OF-SIMULATION event.
\<close>

datatype error = logic_error

definition do_stop_at_time :: "'t::ord \<Rightarrow> 't engine \<Rightarrow> error + 't engine" where
  "do_stop_at_time time e =
     (if \<not> (time \<ge> sim_time e) then Inl logic_error
      else Inr (snd (schedule_event eos_evt_src time e)))"

definition stop_at_time :: "'t::ord \<Rightarrow> 't engine \<Rightarrow> error + 't engine" where
  "stop_at_time time e = do_stop_at_time time e"

text \<open>
  \<^verbatim>\<open>run()\<close>. The pure virtual \<^verbatim>\<open>do_run()\<close> is the parameter \<open>do_run\<close>; it yields \<open>None\<close>
  when the strategy does not return normally, and then \<^verbatim>\<open>run()\<close> does not either.
\<close>

definition run :: "('t engine \<Rightarrow> 't engine option) \<Rightarrow> 't engine \<Rightarrow> 't engine option" where
  "run do_run e =
     (case do_run (e\<lparr>end_of_sim := False\<rparr>) of
        None \<Rightarrow> None
      | Some e' \<Rightarrow> Some (e'\<lparr>end_of_sim := True\<rparr>))"

subsection \<open>Sequences of engine operations\<close>

datatype 't engine_op =
    Schedule_event event_source 't
  | Reschedule_event nat 't
  | Advance
  | Fire_next_event
  | Stop_at_time 't

fun apply_op ::
  "('t::ord event \<Rightarrow> 't engine \<Rightarrow> 't engine) \<Rightarrow> ('t \<Rightarrow> 't \<Rightarrow> bool) \<Rightarrow> 't engine_op \<Rightarrow> 't engine
     \<Rightarrow> error + 't engine" where
  "apply_op fire eq (Schedule_event src time) e = Inr (snd (schedule_event src time e))"
| "apply_op fire eq (Reschedule_event ptr_evt time) e = Inr (reschedule_event eq ptr_evt time e)"
| "apply_op fire eq Advance e = Inr (advance fire e)"
| "apply_op fire eq Fire_next_event e = Inr (fire_next_event fire e)"
| "apply_op fire eq (Stop_at_time time) e = stop_at_time time e"

text \<open>The engine after each operation of a sequence; an exception ends the sequence.\<close>

fun trace ::
  "('t::ord event \<Rightarrow> 't engine \<Rightarrow> 't engine) \<Rightarrow> ('t \<Rightarrow> 't \<Rightarrow> bool) \<Rightarrow> 't engine_op list \<Rightarrow> 't engine
     \<Rightarrow> 't engine list" where
  "trace fire eq [] e = []"
| "trace fire eq (x # xs) e =
     (case apply_op fire eq x e of
        Inl err \<Rightarrow> []
      | Inr e' \<Rightarrow> e' # trace fire eq xs e')"

subsection \<open>Times that may be NaN\<close>

text \<open>
  The values of a floating-point \<^verbatim>\<open>RealT\<close> as far as the engine can tell them apart:
  the numbers, which are linearly ordered (the infinities included), and NaN, on which
  every comparison is false.
\<close>

datatype 'n or_nan = Num 'n | NaN

instantiation or_nan :: (ord) ord
begin

definition less_or_nan :: "'a or_nan \<Rightarrow> 'a or_nan \<Rightarrow> bool" where
  "less_or_nan a b =
     (case a of Num x \<Rightarrow> (case b of Num y \<Rightarrow> x < y | NaN \<Rightarrow> False) | NaN \<Rightarrow> False)"

definition less_eq_or_nan :: "'a or_nan \<Rightarrow> 'a or_nan \<Rightarrow> bool" where
  "less_eq_or_nan a b =
     (case a of Num x \<Rightarrow> (case b of Num y \<Rightarrow> x \<le> y | NaN \<Rightarrow> False) | NaN \<Rightarrow> False)"

instance ..

end

instantiation or_nan :: (zero) zero
begin

definition zero_or_nan :: "'a or_nan" where
  "zero_or_nan = Num 0"

instance ..

end

text \<open>The clock is a number, and every queued event fires now or later.\<close>

definition fel_in_future :: "'n::ord or_nan engine \<Rightarrow> bool" where
  "fel_in_future e =
     (sim_time e \<noteq> NaN
      \<and> (\<forall>it \<in> set (entries (evt_list e)). sim_time e \<le> evt_key e (snd it)))"

text \<open>The times an operation is called with are numbers.\<close>

fun op_time_ok :: "'n or_nan engine_op \<Rightarrow> bool" where
  "op_time_ok (Schedule_event src time) = (time \<noteq> NaN)"
| "op_time_ok (Reschedule_event ptr_evt time) = (time \<noteq> NaN)"
| "op_time_ok Advance = True"
| "op_time_ok Fire_next_event = True"
| "op_time_ok (Stop_at_time time) = True"

text \<open>
  What the sinks are assumed to do with the engine they reach through the context: they
  keep queued events in the future and do not turn the clock back (as they do when they
  use the scheduling operations of the engine).
\<close>

definition sinks_keep_time ::
  "('n::ord or_nan event \<Rightarrow> 'n or_nan engine \<Rightarrow> 'n or_nan engine) \<Rightarrow> bool" where
  "sinks_keep_time fire =
     (\<forall>ev e. fel_in_future e \<longrightarrow> fel_in_future (fire ev e) \<and> sim_time e \<le> sim_time (fire ev e))"

text \<open>
  A sink that runs a sequence of engine operations, chosen from the event and the engine
  it sees; \<open>fire\<close> stands for the sinks that run when this sink makes the engine fire.
\<close>

definition ops_sink ::
  "('t::ord event \<Rightarrow> 't engine \<Rightarrow> 't engine) \<Rightarrow> ('t \<Rightarrow> 't \<Rightarrow> bool)
     \<Rightarrow> ('t event \<Rightarrow> 't engine \<Rightarrow> 't engine_op list) \<Rightarrow> 't event \<Rightarrow> 't engine \<Rightarrow> 't engine" where
  "ops_sink fire eq prog ev e = last (e # trace fire eq (prog ev e) e)"






subsection \<open>Concrete sinks, strategies and engines\<close>

text \<open>No sink connected anywhere: firing does nothing.\<close>

definition no_sinks :: "'t event \<Rightarrow> 't engine \<Rightarrow> 't engine" where
  "no_sinks ev e = e"


text \<open>A run strategy that schedules one client event and returns.\<close>

definition do_run_one_event :: "real engine \<Rightarrow> real engine option" where
  "do_run_one_event e = Some (snd (schedule_event (usr_evt_src 0) 1 e))"



text \<open>A strategy that prepares and at once finalizes the simulation, with no sink connected.\<close>

definition do_run_minimal :: "real engine \<Rightarrow> real engine option" where
  "do_run_minimal e = Some (finalize_simulation no_sinks (prepare_simulation no_sinks id e))"

text \<open>An engine whose client source 0 is disabled, at time 2.\<close>

definition engine_src0_disabled :: "real engine" where
  "engine_src0_disabled = engine_init\<lparr>src_enabled := (\<lambda>s. s \<noteq> usr_evt_src 0), sim_time := 2\<rparr>"

text \<open>An engine at time 5 with one event queued for time 10.\<close>

definition engine_at_5 :: "real engine" where
  "engine_at_5 = (snd (schedule_event (usr_evt_src 0) 10 engine_init))\<lparr>sim_time := 5\<rparr>"

text \<open>
  A running engine at time 4 that monitors two disabled statistics, the first of which
  has entered its steady state, and the same engine with both statistics enabled.
\<close>

definition engine_two_stats :: "real engine" where
  "engine_two_stats =
     engine_init\<lparr>end_of_sim := False, sim_time := 4,
       mon_stats := [(0, False), (1, False)],
       stat_heap := (\<lambda>p. \<lparr>enabled = False, steady_state_entered = (p = 0),
                           target_precision_reached = False, steady_state_enter_time = 0\<rparr>)\<rparr>"

definition engine_two_enabled_stats :: "real engine" where
  "engine_two_enabled_stats =
     engine_two_stats\<lparr>stat_heap :=
       (\<lambda>p. \<lparr>enabled = True, steady_state_entered = (p = 0),
              target_precision_reached = False, steady_state_enter_time = 0\<rparr>)\<rparr>"





subsection \<open>The replication-count detector\<close>

text \<open>
  \<^verbatim>\<open>constant_num_replications_detector<RealT>\<close> has the single member \<^verbatim>\<open>r_\<close>.
  \<^verbatim>\<open>default_num_replications\<close> is \<^verbatim>\<open>dcs::math::constants::infinity<std::size_t>::value\<close>,
  a constant of another library: the parameter \<open>infinity\<close>. The constructor takes the
  replication count, or nothing for the default.
\<close>

record constant_num_replications_detector =
  num_repl :: "64 word"

definition default_num_replications :: "64 word \<Rightarrow> 64 word" where
  "default_num_replications infinity = infinity"

definition new_detector :: "64 word \<Rightarrow> 64 word option \<Rightarrow> constant_num_replications_detector" where
  "new_detector infinity arg =
     (case arg of
        None \<Rightarrow> \<lparr>num_repl = default_num_replications infinity\<rparr>
      | Some n \<Rightarrow> \<lparr>num_repl = n\<rparr>)"

definition detect ::
  "64 word \<Rightarrow> 'r \<Rightarrow> 'r \<Rightarrow> constant_num_replications_detector
     \<Rightarrow> bool \<times> constant_num_replications_detector" where
  "detect r_cur estimate stddev d = (True, d)"

definition detected :: "constant_num_replications_detector \<Rightarrow> bool" where
  "detected d = True"

definition aborted :: "constant_num_replications_detector \<Rightarrow> bool" where
  "aborted d = False"

definition estimated_number :: "constant_num_replications_detector \<Rightarrow> 64 word" where
  "estimated_number d = num_repl d"

definition detector_reset ::
  "constant_num_replications_detector \<Rightarrow> constant_num_replications_detector" where
  "detector_reset d = d"

section \<open>The replication-count detector is constant\<close>

text \<open>
  C10. For every detector and every input \<open>(r_cur, estimate, stddev)\<close>: \<open>detect\<close>
  returns true and leaves the detector unchanged, \<open>detected\<close> is true, \<open>aborted\<close> is
  false, \<open>reset\<close> changes nothing, and \<open>estimated_number\<close> is the replication count given
  to the constructor, which defaults to the infinity constant of \<open>size_t\<close>; the count
  stays the same after \<open>detect\<close> and \<open>reset\<close>.
\<close>

theorem detector_is_constant:
  "detect r_cur estimate stddev d = (True, d)
   \<and> detected d
   \<and> \<not> aborted d
   \<and> detector_reset d = d
   \<and> estimated_number (new_detector infinity (Some n)) = n
   \<and> estimated_number (new_detector infinity None) = infinity
   \<and> default_num_replications infinity = infinity
   \<and> estimated_number (snd (detect r_cur estimate stddev d)) = estimated_number d
   \<and> estimated_number (detector_reset d) = estimated_number d"
  by (simp add: detect_def detected_def aborted_def detector_reset_def estimated_number_def
      new_detector_def default_num_replications_def)

section \<open>Scheduling\<close>

text \<open>
  C5. \<open>schedule_event source time\<close>: when the source is disabled, the null pointer is
  returned and the engine (its future-event list included) is unchanged. Otherwise a new
  event is returned and pushed to the end of the future-event list with the next sequence
  number; its scheduled time is the clock and its fire time is \<open>time\<close>, or the clock
  when \<open>time\<close> lies in the past. No other event and not the clock is touched.
\<close>

theorem schedule_event_contract:
  fixes e :: "'t::linorder engine"
  shows
  "(\<not> src_enabled e src \<longrightarrow> schedule_event src time e = (None, e))
   \<and> (src_enabled e src \<longrightarrow>
        (let r = schedule_event src time e; e' = snd r; p = next_handle e;
             time' = (if time < sim_time e then sim_time e else time)
         in fst r = Some p
            \<and> evt_heap e' p = Event src (sim_time e) time' None
            \<and> scheduled_time (evt_heap e' p) = sim_time e
            \<and> fire_time (evt_heap e' p) = time'
            \<and> sim_time e \<le> fire_time (evt_heap e' p)
            \<and> entries (evt_list e') = entries (evt_list e) @ [(next_seq (evt_list e), p)]
            \<and> (\<forall>q. q \<noteq> p \<longrightarrow> evt_heap e' q = evt_heap e q)
            \<and> sim_time e' = sim_time e))"
  by (simp add: schedule_event_def Let_def event_list_push_def not_less)

theorem schedule_event_contract_witness:
  "src_enabled (engine_init :: real engine) (usr_evt_src 0)
   \<and> fst (schedule_event (usr_evt_src 0) (-3) (engine_init :: real engine)) = Some 0
   \<and> fire_time
        (evt_heap (snd (schedule_event (usr_evt_src 0) (-3) (engine_init :: real engine))) 0) = 0
   \<and> entries
        (evt_list (snd (schedule_event (usr_evt_src 0) (-3) (engine_init :: real engine))))
       = [(0, 0)]
   \<and> \<not> src_enabled engine_src0_disabled (usr_evt_src 0)
   \<and> schedule_event (usr_evt_src 0) 5 engine_src0_disabled = (None, engine_src0_disabled)"
  using schedule_event_contract [of "engine_init :: real engine" "usr_evt_src 0" "-3"]
        schedule_event_contract [of engine_src0_disabled "usr_evt_src 0" 5]
  by (simp add: engine_init_def engine_src0_disabled_def Let_def)

text \<open>
  The branches of \<open>schedule_event\<close> do not depend on the order of the times: the same holds
  for every time type, NaN included.
\<close>

lemma schedule_event_any_time:
  fixes e :: "'t::ord engine"
  shows "schedule_event src time e =
     (if \<not> src_enabled e src then (None, e)
      else (Some (next_handle e),
            e\<lparr>evt_heap := (evt_heap e)
                  (next_handle e :=
                     Event src (sim_time e) (if time < sim_time e then sim_time e else time) None),
              next_handle := Suc (next_handle e),
              evt_list := event_list_push (next_handle e) (evt_list e)\<rparr>))"
  by (simp add: schedule_event_def Let_def)

lemma erase_first_subset: "set (erase_first p xs) \<subseteq> set xs"
  by (induction xs) auto



section \<open>Event counters\<close>

text \<open>
  C3. Firing SYSTEM-INITIALIZATION or SYSTEM-FINALIZATION immediately on a freshly
  constructed engine counts a user event: \<open>is_internal_event\<close> knows only four of the six
  sources of the engine.
\<close>

theorem system_events_counted_as_user_events:
  "num_events (initialize_simulated_system no_sinks engine_init) = 1
   \<and> num_usr_events (initialize_simulated_system no_sinks engine_init) = 1
   \<and> num_usr_events (finalize_simulated_system no_sinks engine_init) = 1
   \<and> \<not> is_internal_event (Event si_evt_src 0 0 None)
   \<and> \<not> is_internal_event (Event sf_evt_src 0 0 None)"
  by (simp add: initialize_simulated_system_def finalize_simulated_system_def
      fire_immediate_event_def count_event_def is_internal_event_def fire_wrapper_def
      no_sinks_def engine_init_def Let_def)

section \<open>The life cycle of a run\<close>

text \<open>\<open>reset\<close> leaves the counter of user events as it is.\<close>

lemma reset_keeps_num_usr_events: "num_usr_events (reset e) = num_usr_events e"
  by (simp add: reset_def)

lemma reset_statistics_frame:
  "sim_time (reset_statistics f e) = sim_time e
   \<and> last_evt_time (reset_statistics f e) = last_evt_time e
   \<and> num_events (reset_statistics f e) = num_events e
   \<and> num_usr_events (reset_statistics f e) = num_usr_events e
   \<and> evt_list (reset_statistics f e) = evt_list e
   \<and> end_of_sim (reset_statistics f e) = end_of_sim e
   \<and> src_enabled (reset_statistics f e) = src_enabled e
   \<and> src_empty (reset_statistics f e) = src_empty e"
  by (simp add: reset_statistics_def)

text \<open>
  C4, as stated, fails on a freshly constructed engine without sinks: after
  \<open>prepare_simulation\<close> the BEGIN-OF-SIMULATION event has been counted.
\<close>

theorem prepare_simulation_counts_begin_of_sim:
  "\<not> (sim_time (prepare_simulation no_sinks id engine_init) = 0
      \<and> num_events (prepare_simulation no_sinks id engine_init) = 0
      \<and> num_usr_events (prepare_simulation no_sinks id engine_init) = 0
      \<and> event_list_empty (evt_list (prepare_simulation no_sinks id engine_init))
      \<and> \<not> end_of_sim (prepare_simulation no_sinks id engine_init))"
  by (simp add: prepare_simulation_def reset_def reset_statistics_def
      fire_immediate_event_def count_event_def is_internal_event_def fire_wrapper_def
      no_sinks_def engine_init_def Let_def event_list_clear_def event_list_empty_def)

text \<open>
  C4, amended. \<open>prepare_simulation\<close> first resets the core state and the statistics:
  at that point the clock and the time of the last event are 0, \<open>num_events\<close> is 0, the
  future-event list is empty and \<open>end_of_sim\<close> is false. It then fires
  BEGIN-OF-SIMULATION immediately on that state. When the BEGIN-OF-SIMULATION source is
  disabled, the reset state is the result. When it is enabled and no sink is connected,
  the result has clock 0, an empty future-event list, \<open>end_of_sim\<close> false and
  \<open>num_events\<close> 1: the BEGIN-OF-SIMULATION event is counted.
\<close>

theorem prepare_simulation_resets_then_fires:
  "(let r = reset_statistics stat_reset (reset e)
    in sim_time r = 0 \<and> last_evt_time r = 0 \<and> num_events r = 0
       \<and> event_list_empty (evt_list r) \<and> \<not> end_of_sim r
       \<and> prepare_simulation fire stat_reset e = fire_immediate_event fire bos_evt_src r
       \<and> (\<not> src_enabled e bos_evt_src \<longrightarrow> prepare_simulation fire stat_reset e = r))
   \<and> (src_enabled e bos_evt_src \<and> src_empty e bef_evt_src \<and> src_empty e aef_evt_src \<longrightarrow>
        (let e' = prepare_simulation no_sinks stat_reset e
         in sim_time e' = 0 \<and> last_evt_time e' = 0 \<and> num_events e' = 1
            \<and> event_list_empty (evt_list e') \<and> \<not> end_of_sim e'))"
  by (simp add: prepare_simulation_def reset_statistics_frame Let_def
      fire_immediate_event_def count_event_def is_internal_event_def fire_wrapper_def
      no_sinks_def)
     (simp add: reset_def event_list_clear_def event_list_empty_def)

theorem prepare_simulation_resets_then_fires_witness:
  "src_enabled engine_at_5 bos_evt_src
   \<and> src_empty engine_at_5 bef_evt_src \<and> src_empty engine_at_5 aef_evt_src
   \<and> sim_time (prepare_simulation no_sinks id engine_at_5) = 0
   \<and> num_events (prepare_simulation no_sinks id engine_at_5) = 1
   \<and> event_list_empty (evt_list (prepare_simulation no_sinks id engine_at_5))
   \<and> \<not> end_of_sim (prepare_simulation no_sinks id engine_at_5)"
proof -
  have h: "src_enabled engine_at_5 bos_evt_src
     \<and> src_empty engine_at_5 bef_evt_src \<and> src_empty engine_at_5 aef_evt_src"
    by (simp add: engine_at_5_def engine_init_def schedule_event_def Let_def)
  from prepare_simulation_resets_then_fires [of id engine_at_5 no_sinks] h
  have "let e' = prepare_simulation no_sinks id engine_at_5
        in sim_time e' = 0 \<and> last_evt_time e' = 0 \<and> num_events e' = 1
           \<and> event_list_empty (evt_list e') \<and> \<not> end_of_sim e'"
    by blast
  with h show ?thesis by (simp add: Let_def)
qed

text \<open>
  C1, as stated, fails for a strategy that leaves an event queued: \<open>run\<close> returns with a
  non-empty future-event list.
\<close>

theorem run_leaves_queued_event:
  "run do_run_one_event engine_init \<noteq> None
   \<and> \<not> event_list_empty (evt_list (the (run do_run_one_event engine_init)))"
  by (simp add: run_def do_run_one_event_def schedule_event_def engine_init_def Let_def
      event_list_push_def event_list_empty_def)

text \<open>
  C1, amended. When \<open>run\<close> returns, \<open>end_of_simulation\<close> is true, and the engine is
  the one the strategy \<open>do_run\<close> left but for that flag: the future-event list is the
  list \<open>do_run\<close> left, empty exactly when \<open>do_run\<close> left it empty.
\<close>

theorem run_sets_end_of_sim:
  "run do_run e = Some e' \<Longrightarrow>
     end_of_sim e'
     \<and> (\<exists>e1. do_run (e\<lparr>end_of_sim := False\<rparr>) = Some e1 \<and> e' = e1\<lparr>end_of_sim := True\<rparr>
           \<and> evt_list e' = evt_list e1
           \<and> event_list_empty (evt_list e') = event_list_empty (evt_list e1))"
  by (auto simp: run_def split: option.splits)

theorem run_sets_end_of_sim_witness:
  "run do_run_minimal engine_at_5 = Some (the (run do_run_minimal engine_at_5))
   \<and> end_of_sim (the (run do_run_minimal engine_at_5))
   \<and> event_list_empty (evt_list (the (run do_run_minimal engine_at_5)))"
proof -
  have r: "run do_run_minimal engine_at_5 = Some (the (run do_run_minimal engine_at_5))"
    by (simp add: run_def do_run_minimal_def)
  have "event_list_empty (evt_list (the (run do_run_minimal engine_at_5)))"
    by (simp add: run_def do_run_minimal_def finalize_simulation_def prepare_simulation_def
        reset_def reset_statistics_def fire_immediate_event_def count_event_def
        is_internal_event_def fire_wrapper_def no_sinks_def engine_at_5_def engine_init_def
        schedule_event_def Let_def event_list_clear_def event_list_empty_def
        event_list_push_def)
  with r run_sets_end_of_sim [OF r] show ?thesis by simp
qed

section \<open>Monitoring the statistics\<close>

lemma monitor_loop_prec:
  "snd (snd (monitor_loop t ms sh pr)) =
     (pr \<and> (\<forall>it \<in> set ms. \<not> (enabled (sh (fst it)) \<and> \<not> target_precision_reached (sh (fst it)))))"
proof (induction ms arbitrary: sh pr)
  case Nil
  show ?case by simp
next
  case (Cons it rest)
  show ?case
    by (simp add: Cons.IH Let_def) auto
qed

lemma monitor_loop_latches:
  "fst (monitor_loop t ms sh pr) =
     map (\<lambda>it. (fst it, snd it \<or> steady_state_entered (sh (fst it)))) ms"
proof (induction ms arbitrary: sh pr)
  case Nil
  show ?case by simp
next
  case (Cons it rest)
  show ?case
    by (simp add: Cons.IH Let_def)
qed

lemma monitor_loop_heap:
  "fst (snd (monitor_loop t ms sh pr)) q =
     (if \<exists>it \<in> set ms. fst it = q \<and> \<not> snd it \<and> steady_state_entered (sh q)
      then (sh q)\<lparr>steady_state_enter_time := t\<rparr> else sh q)"
proof (induction ms arbitrary: sh pr)
  case Nil
  show ?case by simp
next
  case (Cons it rest)
  show ?case
    by (simp add: Cons.IH Let_def) auto
qed

text \<open>
  C7, as stated, fails for the empty registry: no registered statistic is enabled and
  short of its precision, and yet \<open>end_of_sim\<close> stays false.
\<close>

theorem monitor_statistics_empty_registry:
  "mon_stats (reset engine_init) = []
   \<and> \<not> end_of_sim (reset engine_init)
   \<and> \<not> end_of_sim (monitor_statistics (reset engine_init))"
  by (simp add: monitor_statistics_def reset_def engine_init_def)

text \<open>
  C7, amended. With an empty registry \<open>monitor_statistics\<close> changes nothing. With a
  non-empty registry it visits every registered statistic: the latch of each entry becomes
  true when it was true or the statistic has entered its steady state; a statistic with an
  entry whose latch was false and which has entered its steady state gets the clock as
  its steady-state enter time, and no other statistic changes; \<open>end_of_sim\<close> is true
  afterwards exactly when it was true before or no registered statistic is both enabled
  and short of its target precision. Clock, future-event list and counters are untouched.
\<close>

theorem monitor_statistics_visits_all:
  "(mon_stats e = [] \<longrightarrow> monitor_statistics e = e)
   \<and> (mon_stats e \<noteq> [] \<longrightarrow>
        (let e' = monitor_statistics e
         in mon_stats e' =
              map (\<lambda>it. (fst it, snd it \<or> steady_state_entered (stat_heap e (fst it)))) (mon_stats e)
            \<and> (\<forall>q. stat_heap e' q =
                  (if \<exists>it \<in> set (mon_stats e).
                        fst it = q \<and> \<not> snd it \<and> steady_state_entered (stat_heap e q)
                   then (stat_heap e q)\<lparr>steady_state_enter_time := sim_time e\<rparr>
                   else stat_heap e q))
            \<and> end_of_sim e' =
                (end_of_sim e
                 \<or> (\<forall>it \<in> set (mon_stats e).
                       \<not> (enabled (stat_heap e (fst it))
                          \<and> \<not> target_precision_reached (stat_heap e (fst it)))))
            \<and> sim_time e' = sim_time e \<and> evt_list e' = evt_list e
            \<and> num_events e' = num_events e \<and> num_usr_events e' = num_usr_events e))"
  by (auto simp: monitor_statistics_def Let_def monitor_loop_prec monitor_loop_latches
      monitor_loop_heap)

theorem monitor_statistics_visits_all_witness:
  "mon_stats engine_two_enabled_stats \<noteq> []
   \<and> mon_stats (monitor_statistics engine_two_enabled_stats) = [(0, True), (1, False)]
   \<and> steady_state_enter_time (stat_heap (monitor_statistics engine_two_enabled_stats) 0) = 4
   \<and> steady_state_enter_time (stat_heap (monitor_statistics engine_two_enabled_stats) 1) = 0
   \<and> \<not> end_of_sim (monitor_statistics engine_two_enabled_stats)"
proof -
  have ms: "mon_stats engine_two_enabled_stats = [(0, False), (1, False)]"
    and t: "sim_time engine_two_enabled_stats = 4"
    and eos: "\<not> end_of_sim engine_two_enabled_stats"
    and sh: "stat_heap engine_two_enabled_stats =
       (\<lambda>p. \<lparr>enabled = True, steady_state_entered = (p = 0),
              target_precision_reached = False, steady_state_enter_time = 0\<rparr>)"
    by (simp_all add: engine_two_enabled_stats_def engine_two_stats_def engine_init_def)
  from ms have ne: "mon_stats engine_two_enabled_stats \<noteq> []" by simp
  from monitor_statistics_visits_all [of engine_two_enabled_stats] ne
  have "let e' = monitor_statistics engine_two_enabled_stats
         in mon_stats e' =
              map (\<lambda>it. (fst it, snd it \<or> steady_state_entered (stat_heap engine_two_enabled_stats (fst it)))) (mon_stats engine_two_enabled_stats)
            \<and> (\<forall>q. stat_heap e' q =
                  (if \<exists>it \<in> set (mon_stats engine_two_enabled_stats).
                        fst it = q \<and> \<not> snd it \<and> steady_state_entered (stat_heap engine_two_enabled_stats q)
                   then (stat_heap engine_two_enabled_stats q)\<lparr>steady_state_enter_time := sim_time engine_two_enabled_stats\<rparr>
                   else stat_heap engine_two_enabled_stats q))
            \<and> end_of_sim e' =
                (end_of_sim engine_two_enabled_stats
                 \<or> (\<forall>it \<in> set (mon_stats engine_two_enabled_stats).
                       \<not> (enabled (stat_heap engine_two_enabled_stats (fst it))
                          \<and> \<not> target_precision_reached (stat_heap engine_two_enabled_stats (fst it)))))
            \<and> sim_time e' = sim_time engine_two_enabled_stats \<and> evt_list e' = evt_list engine_two_enabled_stats
            \<and> num_events e' = num_events engine_two_enabled_stats \<and> num_usr_events e' = num_usr_events engine_two_enabled_stats"
    by blast
  then have a: "mon_stats (monitor_statistics engine_two_enabled_stats) = [(0, True), (1, False)]"
    and b: "\<And>q. stat_heap (monitor_statistics engine_two_enabled_stats) q =
              (if q = 0 then \<lparr>enabled = True, steady_state_entered = True,
                 target_precision_reached = False, steady_state_enter_time = 4\<rparr>
               else \<lparr>enabled = True, steady_state_entered = False,
                 target_precision_reached = False, steady_state_enter_time = 0\<rparr>)"
    and c: "\<not> end_of_sim (monitor_statistics engine_two_enabled_stats)"
    by (auto simp add: Let_def ms t eos sh)
  show ?thesis
    by (simp add: a b c ne)
qed

text \<open>
  C9. When the registry is non-empty and every registered statistic is disabled,
  \<open>monitor_statistics\<close> sets \<open>end_of_sim\<close>, whatever precision the statistics have
  reached.
\<close>

theorem monitor_statistics_all_disabled:
  assumes "mon_stats e \<noteq> []"
    and "\<forall>it \<in> set (mon_stats e). \<not> enabled (stat_heap e (fst it))"
  shows "end_of_sim (monitor_statistics e)"
  using assms by (simp add: monitor_statistics_def Let_def monitor_loop_prec)

theorem monitor_statistics_all_disabled_witness:
  "mon_stats engine_two_stats \<noteq> []
   \<and> \<not> end_of_sim engine_two_stats
   \<and> \<not> target_precision_reached (stat_heap engine_two_stats 0)
   \<and> end_of_sim (monitor_statistics engine_two_stats)"
proof -
  have ne: "mon_stats engine_two_stats \<noteq> []"
    and dis: "\<forall>it \<in> set (mon_stats engine_two_stats). \<not> enabled (stat_heap engine_two_stats (fst it))"
    and rest: "\<not> end_of_sim engine_two_stats" "\<not> target_precision_reached (stat_heap engine_two_stats 0)"
    by (simp_all add: engine_two_stats_def engine_init_def)
  from monitor_statistics_all_disabled [OF ne dis] ne rest show ?thesis by simp
qed

section \<open>The clock never goes back\<close>

text \<open>Comparisons of times that may be NaN.\<close>

lemma or_nan_less [simp]:
  "Num x < Num y \<longleftrightarrow> x < y" "\<not> NaN < b" "\<not> a < NaN"
  by (simp_all add: less_or_nan_def split: or_nan.splits)

lemma or_nan_le [simp]:
  "Num x \<le> Num y \<longleftrightarrow> x \<le> y" "\<not> NaN \<le> b" "\<not> a \<le> NaN"
  by (simp_all add: less_eq_or_nan_def split: or_nan.splits)

lemma or_nan_le_trans:
  fixes a :: "'n::preorder or_nan"
  shows "a \<le> b \<Longrightarrow> b \<le> c \<Longrightarrow> a \<le> c"
  by (cases a; cases b; cases c) (auto intro: order_trans)

lemma or_nan_le_refl:
  fixes a :: "'n::preorder or_nan"
  shows "a \<noteq> NaN \<Longrightarrow> a \<le> a"
  by (cases a) auto

lemma or_nan_not_less:
  fixes a :: "'n::linorder or_nan"
  shows "a \<noteq> NaN \<Longrightarrow> b \<noteq> NaN \<Longrightarrow> \<not> a < b \<Longrightarrow> b \<le> a"
  by (cases a; cases b) auto

lemma or_nan_less_le:
  fixes a :: "'n::preorder or_nan"
  shows "a < b \<Longrightarrow> a \<le> b"
  by (cases a; cases b) (auto intro: less_imp_le)

lemma or_nan_le_numbers: "a \<le> b \<Longrightarrow> a \<noteq> NaN \<and> b \<noteq> NaN"
  by (cases a; cases b) auto

lemma min_entry_in: "min_entry key a xs \<in> set (a # xs)"
  by (induction xs arbitrary: a) (auto split: if_splits)

lemma top_entry_in: "entries fel \<noteq> [] \<Longrightarrow> top_entry key fel \<in> set (entries fel)"
  using min_entry_in [of key "hd (entries fel)" "tl (entries fel)"]
  by (cases "entries fel") (auto simp: top_entry_def)

lemma min_entry_key_le:
  fixes key :: "nat \<Rightarrow> 'n::linorder or_nan"
  assumes "\<forall>y \<in> set (a # xs). key (snd y) \<noteq> NaN" and "x \<in> set (a # xs)"
  shows "key (snd (min_entry key a xs)) \<le> key (snd x)"
  using assms
proof (induction xs arbitrary: a x)
  case Nil
  then show ?case by (simp add: or_nan_le_refl)
next
  case (Cons b bs)
  let ?m = "if entry_before key b a then b else a"
  have nn: "\<forall>y \<in> set (?m # bs). key (snd y) \<noteq> NaN"
    using Cons.prems(1) by auto
  have m: "key (snd (min_entry key ?m bs)) \<le> key (snd ?m)"
    using Cons.IH [OF nn, of ?m] by simp
  have ka: "key (snd a) \<noteq> NaN" and kb: "key (snd b) \<noteq> NaN"
    using Cons.prems(1) by auto
  have ab: "key (snd ?m) \<le> key (snd a)" "key (snd ?m) \<le> key (snd b)"
    using ka kb
    by (auto simp: entry_before_def or_nan_le_refl or_nan_less_le or_nan_not_less)
  from Cons.prems(2) consider "x = a" | "x = b" | "x \<in> set bs" by auto
  then show ?case
  proof cases
    case 1
    with or_nan_le_trans [OF m ab(1)] show ?thesis by simp
  next
    case 2
    with or_nan_le_trans [OF m ab(2)] show ?thesis by simp
  next
    case 3
    with Cons.IH [OF nn, of x] show ?thesis by simp
  qed
qed

lemma top_entry_key_le:
  fixes key :: "nat \<Rightarrow> 'n::linorder or_nan"
  assumes "\<forall>y \<in> set (entries fel). key (snd y) \<noteq> NaN" and "x \<in> set (entries fel)"
  shows "key (snd (top_entry key fel)) \<le> key (snd x)"
  using assms min_entry_key_le [of "hd (entries fel)" "tl (entries fel)" key x]
  by (cases "entries fel") (auto simp: top_entry_def)

lemma fel_in_future_keys:
  "fel_in_future e \<Longrightarrow> \<forall>y \<in> set (entries (evt_list e)). evt_key e (snd y) \<noteq> NaN"
  using or_nan_le_numbers by (fastforce simp: fel_in_future_def)

lemma fel_in_future_frame:
  assumes "entries (evt_list e') = entries (evt_list e)" "evt_heap e' = evt_heap e"
    "sim_time e' = sim_time e"
  shows "fel_in_future e' = fel_in_future e"
  using assms by (simp add: fel_in_future_def evt_key_def)

lemma schedule_event_keeps_time:
  fixes e :: "'n::linorder or_nan engine"
  assumes "fel_in_future e" "time \<noteq> NaN"
  shows "fel_in_future (snd (schedule_event src time e))
     \<and> sim_time (snd (schedule_event src time e)) = sim_time e"
  using assms
  by (auto simp: schedule_event_def Let_def fel_in_future_def evt_key_def event_list_push_def
      or_nan_le_refl or_nan_not_less)

lemma reschedule_event_keeps_time:
  fixes e :: "'n::linorder or_nan engine"
  assumes "fel_in_future e" "time \<noteq> NaN"
  shows "fel_in_future (reschedule_event eq p time e)
     \<and> sim_time (reschedule_event eq p time e) = sim_time e"
  using assms erase_first_subset [of p "entries (evt_list e)"]
  by (auto simp: reschedule_event_def Let_def fel_in_future_def evt_key_def event_list_push_def
      event_list_erase_def set_fire_time_def or_nan_le_refl or_nan_not_less)

lemma monitor_statistics_frame:
  "evt_list (monitor_statistics e) = evt_list e
   \<and> evt_heap (monitor_statistics e) = evt_heap e
   \<and> sim_time (monitor_statistics e) = sim_time e"
  by (simp add: monitor_statistics_def Let_def)

lemma monitor_statistics_keeps_time:
  "fel_in_future (monitor_statistics e) = fel_in_future e"
  by (rule fel_in_future_frame) (simp_all add: monitor_statistics_frame)

lemma fel_in_future_clock:
  fixes e :: "'n::linorder or_nan engine"
  shows "fel_in_future e \<Longrightarrow> sim_time e \<le> sim_time e"
  by (simp add: fel_in_future_def or_nan_le_refl)

lemma fire_wrapper_keeps_time:
  fixes e :: "'n::linorder or_nan engine"
  assumes "sinks_keep_time fire" "fel_in_future e"
  shows "fel_in_future (fire_wrapper fire src ev e)
     \<and> sim_time e \<le> sim_time (fire_wrapper fire src ev e)"
proof (cases "src_empty e src")
  case True
  with assms show ?thesis by (simp add: fire_wrapper_def fel_in_future_clock)
next
  case False
  let ?e1 = "fire (make_internal_event e src ev) e"
  from assms have a: "fel_in_future ?e1" "sim_time e \<le> sim_time ?e1"
    by (auto simp: sinks_keep_time_def)
  have "fel_in_future (?e1\<lparr>num_events := num_events ?e1 + 1\<rparr>) = fel_in_future ?e1"
    by (rule fel_in_future_frame) simp_all
  with a False show ?thesis by (simp add: fire_wrapper_def Let_def)
qed

lemma count_event_frame:
  "evt_list (count_event ev e) = evt_list e \<and> evt_heap (count_event ev e) = evt_heap e
   \<and> sim_time (count_event ev e) = sim_time e"
  by (simp add: count_event_def Let_def)

lemma pop_keeps_time:
  assumes "fel_in_future e" "\<not> event_list_empty (evt_list e)"
  shows "fel_in_future (e\<lparr>evt_list := event_list_pop (evt_key e) (evt_list e)\<rparr>)"
  using assms notin_set_remove1
  by (auto simp: fel_in_future_def evt_key_def event_list_pop_def)


lemma fire_next_event_keeps_time:
  fixes e :: "'n::linorder or_nan engine"
  assumes s: "sinks_keep_time fire" and f: "fel_in_future e"
  shows "fel_in_future (fire_next_event fire e)
     \<and> sim_time e \<le> sim_time (fire_next_event fire e)"
proof (cases "event_list_empty (evt_list e)")
  case True
  with f show ?thesis by (simp add: fire_next_event_def fel_in_future_clock)
next
  case ne: False
  define p where "p = event_list_top (evt_key e) (evt_list e)"
  define e1 where "e1 = e\<lparr>evt_list := event_list_pop (evt_key e) (evt_list e)\<rparr>"
  define cur where "cur = evt_heap e1 p"
  have f1: "fel_in_future e1"
    unfolding e1_def using f ne by (rule pop_keeps_time)
  have t1: "sim_time e1 = sim_time e" by (simp add: e1_def)
  show ?thesis
  proof (cases "src_enabled e1 (source cur)")
    case False
    with ne f1 t1 fel_in_future_clock [OF f] show ?thesis
      by (simp add: fire_next_event_def Let_def p_def [symmetric] e1_def [symmetric]
          cur_def [symmetric])
  next
    case en: True
    define e3 where "e3 = (count_event cur e1)\<lparr>sim_time := fire_time cur\<rparr>"
    define e4 where "e4 = fire_wrapper fire bef_evt_src (evt_heap e3 p) e3"
    define e5 where "e5 = fire (evt_heap e4 p) e4"
    define e6 where "e6 = fire_wrapper fire aef_evt_src (evt_heap e5 p) e5"
    define e7 where "e7 = e6\<lparr>last_evt_time := fire_time cur\<rparr>"
    have top_in: "top_entry (evt_key e) (evt_list e) \<in> set (entries (evt_list e))"
      using ne by (simp add: top_entry_in event_list_empty_def)
    have cur_key: "fire_time cur = evt_key e (snd (top_entry (evt_key e) (evt_list e)))"
      by (simp add: cur_def e1_def p_def event_list_top_def evt_key_def)
    have le: "sim_time e \<le> fire_time cur"
      using f top_in by (auto simp: cur_key fel_in_future_def)
    have rest: "fire_time cur \<le> evt_key e (snd x)" if "x \<in> set (entries (evt_list e1))" for x
    proof -
      from that have "x \<in> set (entries (evt_list e))"
        using notin_set_remove1 by (fastforce simp: e1_def event_list_pop_def)
      with fel_in_future_keys [OF f] show ?thesis by (simp add: cur_key top_entry_key_le)
    qed
    have f3: "fel_in_future e3"
      using rest or_nan_le_numbers [OF le]
      by (simp add: fel_in_future_def e3_def count_event_frame evt_key_def e1_def)
    have t3: "sim_time e3 = fire_time cur" by (simp add: e3_def)
    have f4: "fel_in_future e4" "sim_time e3 \<le> sim_time e4"
      using fire_wrapper_keeps_time [OF s f3] by (simp_all add: e4_def)
    have f5: "fel_in_future e5" "sim_time e4 \<le> sim_time e5"
      using s f4(1) by (auto simp: sinks_keep_time_def e5_def)
    have f6: "fel_in_future e6" "sim_time e5 \<le> sim_time e6"
      using fire_wrapper_keeps_time [OF s f5(1)] by (simp_all add: e6_def)
    have f7: "fel_in_future e7" "sim_time e7 = sim_time e6"
    proof -
      have "fel_in_future e7 = fel_in_future e6"
        by (rule fel_in_future_frame) (simp_all add: e7_def)
      with f6 show "fel_in_future e7" by simp
      show "sim_time e7 = sim_time e6" by (simp add: e7_def)
    qed
    have f8: "fel_in_future (e7\<lparr>end_of_sim := True\<rparr>)"
    proof -
      have "fel_in_future (e7\<lparr>end_of_sim := True\<rparr>) = fel_in_future e7"
        by (rule fel_in_future_frame) simp_all
      with f7 show ?thesis by simp
    qed
    have res: "fire_next_event fire e = (if source cur = eos_evt_src then e7\<lparr>end_of_sim := True\<rparr> else e7)"
      using ne en
      by (simp add: fire_next_event_def Let_def p_def [symmetric] e1_def [symmetric]
          cur_def [symmetric] e3_def [symmetric] e4_def [symmetric] e5_def [symmetric]
          e6_def [symmetric] e7_def [symmetric])
    have "sim_time e \<le> sim_time e3" using le t3 by simp
    then have "sim_time e \<le> sim_time e4" using f4(2) by (rule or_nan_le_trans)
    then have "sim_time e \<le> sim_time e5" using f5(2) by (rule or_nan_le_trans)
    then have "sim_time e \<le> sim_time e6" using f6(2) by (rule or_nan_le_trans)
    then have "sim_time e \<le> sim_time e7" using f7(2) by simp
    with f7 f8 res show ?thesis by simp
  qed
qed

lemma advance_keeps_time:
  fixes e :: "'n::linorder or_nan engine"
  assumes "sinks_keep_time fire" "fel_in_future e"
  shows "fel_in_future (advance fire e) \<and> sim_time e \<le> sim_time (advance fire e)"
  using fire_next_event_keeps_time [OF assms] assms(2)
  by (simp add: advance_def monitor_statistics_keeps_time monitor_statistics_frame
      fel_in_future_clock)

lemma apply_op_keeps_time:
  fixes e :: "'n::linorder or_nan engine"
  assumes "sinks_keep_time fire" "fel_in_future e" "op_time_ok x"
    and "apply_op fire eq x e = Inr e'"
  shows "fel_in_future e' \<and> sim_time e \<le> sim_time e'"
proof (cases x)
  case (Schedule_event src time)
  with assms schedule_event_keeps_time [of e time src] fel_in_future_clock [of e]
  show ?thesis by auto
next
  case (Reschedule_event p time)
  with assms reschedule_event_keeps_time [of e time eq p] fel_in_future_clock [of e]
  show ?thesis by auto
next
  case Advance
  with assms advance_keeps_time [of fire e] show ?thesis by auto
next
  case Fire_next_event
  with assms fire_next_event_keeps_time [of fire e] show ?thesis by auto
next
  case (Stop_at_time time)
  show ?thesis
  proof (cases "time \<ge> sim_time e")
    case True
    then have "time \<noteq> NaN" using or_nan_le_numbers by blast
    with Stop_at_time True assms schedule_event_keeps_time [of e time eos_evt_src]
      fel_in_future_clock [of e]
    show ?thesis by (auto simp: stop_at_time_def do_stop_at_time_def)
  next
    case False
    with Stop_at_time assms show ?thesis
      by (simp add: stop_at_time_def do_stop_at_time_def)
  qed
qed

lemma trace_keeps_time:
  fixes e :: "'n::linorder or_nan engine"
  assumes "sinks_keep_time fire" "fel_in_future e" "\<forall>x \<in> set xs. op_time_ok x"
  shows "(\<forall>s \<in> set (trace fire eq xs e). fel_in_future s \<and> sim_time e \<le> sim_time s)
     \<and> sorted_wrt (\<le>) (map sim_time (trace fire eq xs e))"
  using assms(2,3)
proof (induction xs arbitrary: e)
  case Nil
  show ?case by simp
next
  case (Cons x xs)
  show ?case
  proof (cases "apply_op fire eq x e")
    case (Inl err)
    then show ?thesis by simp
  next
    case (Inr e')
    from Cons.prems have ok: "op_time_ok x" "\<forall>x \<in> set xs. op_time_ok x" by simp_all
    from apply_op_keeps_time [OF assms(1) Cons.prems(1) ok(1) Inr]
    have a: "fel_in_future e'" "sim_time e \<le> sim_time e'" by simp_all
    from Cons.IH [OF a(1) ok(2)]
    have ih: "\<forall>s \<in> set (trace fire eq xs e'). fel_in_future s \<and> sim_time e' \<le> sim_time s"
      "sorted_wrt (\<le>) (map sim_time (trace fire eq xs e'))" by simp_all
    have "sim_time e \<le> sim_time s" if "s \<in> set (trace fire eq xs e')" for s
      using or_nan_le_trans [OF a(2)] ih(1) that by blast
    with ih a Inr show ?thesis by auto
  qed
qed




lemma ops_sink_keeps_time:
  fixes fire :: "'n::linorder or_nan event \<Rightarrow> _"
  assumes "sinks_keep_time fire" and "\<forall>ev e. \<forall>x \<in> set (prog ev e). op_time_ok x"
  shows "sinks_keep_time (ops_sink fire eq prog)"
  unfolding sinks_keep_time_def
proof (intro allI impI)
  fix ev :: "'n or_nan event" and e :: "'n or_nan engine"
  assume f: "fel_in_future e"
  let ?tr = "trace fire eq (prog ev e) e"
  have "last (e # ?tr) \<in> set (e # ?tr)" by (rule last_in_set) simp
  with trace_keeps_time [OF assms(1) f, of "prog ev e" eq] assms(2) f fel_in_future_clock [OF f]
  show "fel_in_future (ops_sink fire eq prog ev e)
     \<and> sim_time e \<le> sim_time (ops_sink fire eq prog ev e)"
    by (auto simp: ops_sink_def)
qed





section \<open>Events of the same time fire in the order of their pushes\<close>


























end
